theory Spec2Isabelle
  imports Main "HOL-Library.Word" "HOL-Library.AList"
begin

section \<open>Errors\<close>

text \<open>
  Every exception that \<^verbatim>\<open>gcloud/datastore/helpers.py\<close> or one of its collaborators can
  raise is a value. The Python code raises \<^verbatim>\<open>ValueError\<close> for all of them but the
  datetime overflow; the constructors carry the names the specification gives to the
  error kinds.
\<close>

datatype error =
    InconsistentIndexing
      \<comment> \<open>\<^verbatim>\<open>ValueError('For a list_value, subvalues must either all be indexed or all excluded from indexes.')\<close>\<close>
  | IntegerOverflow
      \<comment> \<open>\<^verbatim>\<open>ValueError\<close> of \<^verbatim>\<open>Int64ValueChecker.CheckValue\<close>\<close>
  | UnsupportedValueType
      \<comment> \<open>\<^verbatim>\<open>ValueError("Unknown protobuf attr type ...")\<close>\<close>
  | MalformedValue
      \<comment> \<open>named by the specification; no statement of helpers.py raises it\<close>
  | InvalidKey
      \<comment> \<open>raised by the \<^verbatim>\<open>Key\<close> class\<close>
  | OverflowError
      \<comment> \<open>datetime arithmetic leaving the years 1 to 9999\<close>
  | NaiveDatetime
      \<comment> \<open>\<^verbatim>\<open>ValueError('astimezone() cannot be applied to a naive datetime')\<close>\<close>

section \<open>The wire messages\<close>

text \<open>
  Modelled from the spec: the generated module \<^verbatim>\<open>_datastore_v1_pb2\<close> is not part of the
  sources. The messages are given here with the fields helpers.py reads and writes. An
  optional scalar field is an \<open>option\<close> (\<^verbatim>\<open>HasField\<close> is \<open>\<noteq> None\<close>); a repeated field is
  a list; a sub-message whose own presence helpers.py never tests (\<^verbatim>\<open>partition_id\<close>,
  the \<^verbatim>\<open>key\<close> of an entity) is held directly, its default being the message with no
  field set. A 64-bit integer field is read as a Python integer.
\<close>

type_synonym double = "64 word"
  \<comment> \<open>the bit pattern of a double; the codec moves it unchanged\<close>

record PartitionId =
  pb_dataset_id :: "string option"
  pb_namespace :: "string option"

record PathElement =
  pe_kind :: string
  pe_id :: "int option"
  pe_name :: "string option"

record Key_pb =
  partition_id :: PartitionId
  path_element :: "PathElement list"

datatype Value_pb = Value_pb
    (timestamp_microseconds_value: "int option")
    (key_value: "Key_pb option")
    (boolean_value: "bool option")
    (double_value: "double option")
    (integer_value: "int option")
    (string_value: "string option")
    (blob_value: "string option")
    (entity_value: "Entity_pb option")
    (list_value: "Value_pb list")
    (indexed_field: "bool option")
and Entity_pb = Entity_pb
    (entity_key: Key_pb)
    (property: "Property_pb list")
and Property_pb = Property_pb
    (prop_name: string)
    (prop_value: Value_pb)

definition PartitionId_default :: PartitionId where
  "PartitionId_default = \<lparr>pb_dataset_id = None, pb_namespace = None\<rparr>"

definition Key_pb_default :: Key_pb where
  "Key_pb_default = \<lparr>partition_id = PartitionId_default, path_element = []\<rparr>"

definition Value_pb_default :: Value_pb where
  \<comment> \<open>\<^verbatim>\<open>Value()\<close>, and what \<^verbatim>\<open>Clear()\<close> leaves\<close>
  "Value_pb_default = Value_pb None None None None None None None None [] None"

definition indexed :: "Value_pb \<Rightarrow> bool" where
  \<comment> \<open>reading \<^verbatim>\<open>value_pb.indexed\<close>: the field's default is true\<close>
  "indexed v = (case indexed_field v of None \<Rightarrow> True | Some b \<Rightarrow> b)"

section \<open>The in-memory values\<close>

text \<open>
  A \<^verbatim>\<open>datetime.datetime\<close> is held as its wall-clock reading, counted in microseconds
  from 1970-01-01T00:00:00 in the proleptic Gregorian calendar without leap seconds,
  together with its \<^verbatim>\<open>tzinfo\<close>: \<open>None\<close> for a naive value, \<open>Some m\<close> for a zone
  \<open>m\<close> minutes east of UTC (\<^verbatim>\<open>pytz.utc\<close> is \<open>Some 0\<close>).
\<close>

record datetime =
  wall_clock :: int
  tzinfo :: "int option"

definition datetime_min :: int where
  \<comment> \<open>0001-01-01T00:00:00\<close>
  "datetime_min = - 62135596800000000"

definition datetime_max :: int where
  \<comment> \<open>9999-12-31T23:59:59.999999\<close>
  "datetime_max = 253402300799999999"

definition days_from_civil :: "int \<Rightarrow> int \<Rightarrow> int \<Rightarrow> int" where
  \<comment> \<open>days from 1970-01-01 to the given year, month and day\<close>
  "days_from_civil y m d =
     (let y' = (if m \<le> 2 then y - 1 else y);
          era = y' div 400;
          yoe = y' - era * 400;
          doy = (153 * (if m > 2 then m - 3 else m + 9) + 2) div 5 + d - 1;
          doe = yoe * 365 + yoe div 4 - yoe div 100 + doy
      in era * 146097 + doe - 719468)"

definition mk_datetime ::
  "int \<Rightarrow> int \<Rightarrow> int \<Rightarrow> int \<Rightarrow> int \<Rightarrow> int \<Rightarrow> int \<Rightarrow> int option \<Rightarrow> datetime" where
  \<comment> \<open>\<^verbatim>\<open>datetime.datetime(year, month, day, hour, minute, second, microsecond, tzinfo)\<close>\<close>
  "mk_datetime y m d hh mm ss us tz =
     \<lparr>wall_clock = (((days_from_civil y m d * 24 + hh) * 60 + mm) * 60 + ss) * 1000000 + us,
      tzinfo = tz\<rparr>"

definition utc :: "int option" where
  "utc = Some 0"

definition replace_tzinfo :: "datetime \<Rightarrow> int option \<Rightarrow> datetime" where
  \<comment> \<open>\<^verbatim>\<open>val.replace(tzinfo=tz)\<close>: the reading stays, the zone changes\<close>
  "replace_tzinfo val tz = val\<lparr>tzinfo := tz\<rparr>"

definition astimezone_utc :: "datetime \<Rightarrow> error + datetime" where
  \<comment> \<open>\<^verbatim>\<open>val.astimezone(pytz.utc)\<close>: the same instant, read in UTC; a naive value is refused\<close>
  "astimezone_utc val =
     (case tzinfo val of
        None \<Rightarrow> Inl NaiveDatetime
      | Some m \<Rightarrow>
          (let w = wall_clock val - m * 60000000
           in if datetime_min \<le> w \<and> w \<le> datetime_max
              then Inr \<lparr>wall_clock = w, tzinfo = utc\<rparr>
              else Inl OverflowError))"

definition timegm_timetuple :: "datetime \<Rightarrow> int" where
  \<comment> \<open>\<^verbatim>\<open>calendar.timegm(val.timetuple())\<close>: whole seconds since the epoch\<close>
  "timegm_timetuple val = wall_clock val div 1000000"

definition microsecond :: "datetime \<Rightarrow> int" where
  "microsecond val = wall_clock val mod 1000000"

text \<open>
  Modelled from the spec: the class \<^verbatim>\<open>Key\<close> (\<^verbatim>\<open>gcloud.datastore.key\<close>) is not part of
  the sources. A key is an ordered non-empty sequence of segments \<open>(kind, identifier)\<close>,
  the identifier being a numeric ID, a name or absent, with an optional namespace and an
  optional dataset_id. helpers.py builds a key from the flat positional arguments
  \<^verbatim>\<open>Key(*path_args, namespace=..., dataset_id=...)\<close>: kinds and identifiers alternate,
  and only the last kind may come without an identifier.
\<close>

datatype path_arg = Str string | Num int

record Key =
  path :: "(string \<times> path_arg option) list"
  namespace :: "string option"
  dataset_id :: "string option"

fun parse_path :: "path_arg list \<Rightarrow> error + (string \<times> path_arg option) list" where
  "parse_path [] = Inr []"
| "parse_path [Str k] = Inr [(k, None)]"
| "parse_path (Str k # x # rest) =
     (case parse_path rest of Inl e \<Rightarrow> Inl e | Inr segs \<Rightarrow> Inr ((k, Some x) # segs))"
| "parse_path (Num n # rest) = Inl InvalidKey"

definition Key_init :: "path_arg list \<Rightarrow> string option \<Rightarrow> string option \<Rightarrow> error + Key" where
  "Key_init path_args ns ds =
     (if path_args = [] then Inl InvalidKey
      else case parse_path path_args of
             Inl e \<Rightarrow> Inl e
           | Inr segs \<Rightarrow> Inr \<lparr>path = segs, namespace = ns, dataset_id = ds\<rparr>)"

text \<open>
  Modelled from the spec: \<^verbatim>\<open>Key.to_protobuf\<close> is the key encoder of section 4.3. It writes
  the partition fields the key carries and one path element per segment in order, and
  fails with \<open>InvalidKey\<close> when a segment other than the last has no identifier.
\<close>

definition element_of_segment :: "string \<times> path_arg option \<Rightarrow> PathElement" where
  "element_of_segment seg =
     (case snd seg of
        None \<Rightarrow> \<lparr>pe_kind = fst seg, pe_id = None, pe_name = None\<rparr>
      | Some (Num n) \<Rightarrow> \<lparr>pe_kind = fst seg, pe_id = Some n, pe_name = None\<rparr>
      | Some (Str s) \<Rightarrow> \<lparr>pe_kind = fst seg, pe_id = None, pe_name = Some s\<rparr>)"

definition to_protobuf :: "Key \<Rightarrow> error + Key_pb" where
  "to_protobuf k =
     (if list_ex (\<lambda>seg. snd seg = None) (butlast (path k)) then Inl InvalidKey
      else Inr \<lparr>partition_id = \<lparr>pb_dataset_id = dataset_id k, pb_namespace = namespace k\<rparr>,
                path_element = map element_of_segment (path k)\<rparr>)"

text \<open>
  The values of a property. \<open>POther\<close> stands for any Python object of a type that
  \<^verbatim>\<open>_pb_attr_value\<close> does not know. Modelled from the spec: the class \<^verbatim>\<open>Entity\<close>
  (\<^verbatim>\<open>gcloud.datastore.entity\<close>) is not part of the sources; it is a key that may be
  \<^verbatim>\<open>None\<close>, the properties in insertion order, and the set of names excluded from
  indexes.
\<close>

datatype pyval =
    PNone
  | PDatetime datetime
  | PKey Key
  | PBool bool
  | PFloat double
  | PInt int
  | PText string
  | PBytes string
  | PEntity Entity
  | PList "pyval list"
  | POther
and Entity = Entity
    (key: "Key option")
    (items: "(string \<times> pyval) list")
    (exclude_from_indexes: "string set")

section \<open>key_from_protobuf\<close>

fun path_args_of :: "PathElement list \<Rightarrow> path_arg list" where
  \<comment> \<open>the loop of lines 89 to 96, appending to \<^verbatim>\<open>path_args\<close>\<close>
  "path_args_of [] = []"
| "path_args_of (element # rest) =
     [Str (pe_kind element)]
     @ (case pe_id element of Some i \<Rightarrow> [Num i] | None \<Rightarrow> [])
     @ (case pe_name element of Some n \<Rightarrow> [Str n] | None \<Rightarrow> [])
     @ path_args_of rest"

definition key_from_protobuf :: "Key_pb \<Rightarrow> error + Key" where
  "key_from_protobuf pb =
     Key_init (path_args_of (path_element pb))
       (pb_namespace (partition_id pb)) (pb_dataset_id (partition_id pb))"

section \<open>_pb_attr_value\<close>

text \<open>
  The result of \<^verbatim>\<open>_pb_attr_value\<close> is the attribute name with the value to assign; the
  constructor is the name, its argument the value.
\<close>

datatype attr_value =
    timestamp_microseconds_attr int
  | key_attr Key_pb
  | boolean_attr bool
  | double_attr double
  | integer_attr int
  | string_attr string
  | blob_attr string
  | entity_attr Entity
  | list_attr "pyval list"

definition CheckValue :: "int \<Rightarrow> error + unit" where
  \<comment> \<open>Modelled from the spec: \<^verbatim>\<open>Int64ValueChecker().CheckValue\<close> is protobuf's and not
      among the sources; its bounds \<^verbatim>\<open>_MIN = -(1 << 63)\<close>, \<^verbatim>\<open>_MAX = (1 << 63) - 1\<close> are
      the range check of section 9\<close>
  "CheckValue v = (if - (2 ^ 63) \<le> v \<and> v \<le> 2 ^ 63 - 1 then Inr () else Inl IntegerOverflow)"

fun pb_attr_value :: "pyval \<Rightarrow> error + attr_value" where
  "pb_attr_value (PDatetime val) =
     (let val = (if tzinfo val = None then replace_tzinfo val utc else val)
      in case astimezone_utc val of
           Inl e \<Rightarrow> Inl e
         | Inr val \<Rightarrow>
             Inr (timestamp_microseconds_attr (timegm_timetuple val * 1000000 + microsecond val)))"
| "pb_attr_value (PKey val) =
     (case to_protobuf val of Inl e \<Rightarrow> Inl e | Inr k \<Rightarrow> Inr (key_attr k))"
| "pb_attr_value (PBool val) = Inr (boolean_attr val)"
| "pb_attr_value (PFloat val) = Inr (double_attr val)"
| "pb_attr_value (PInt val) =
     (case CheckValue val of Inl e \<Rightarrow> Inl e | Inr _ \<Rightarrow> Inr (integer_attr val))"
| "pb_attr_value (PText val) = Inr (string_attr val)"
| "pb_attr_value (PBytes val) = Inr (blob_attr val)"
| "pb_attr_value (PEntity val) = Inr (entity_attr val)"
| "pb_attr_value (PList val) = Inr (list_attr val)"
| "pb_attr_value PNone = Inl UnsupportedValueType"
| "pb_attr_value POther = Inl UnsupportedValueType"

section \<open>Decoding values and entities\<close>

text \<open>
  \<^verbatim>\<open>Entity(key=key, exclude_from_indexes=...)\<close> creates an entity with no property;
  \<^verbatim>\<open>entity.update(props)\<close> stores each pair of \<open>props\<close> in turn, as the dictionary
  does: a new name goes to the end, a known name keeps its place and takes the new value.
\<close>

fun isinstance_list :: "pyval \<Rightarrow> bool" where
  \<comment> \<open>\<^verbatim>\<open>isinstance(value, list)\<close>\<close>
  "isinstance_list (PList _) = True"
| "isinstance_list _ = False"

definition Entity_init :: "Key option \<Rightarrow> string list \<Rightarrow> Entity" where
  "Entity_init k excl = Entity k [] (set excl)"

definition Entity_update :: "Entity \<Rightarrow> (string \<times> pyval) list \<Rightarrow> Entity" where
  "Entity_update e props =
     Entity (key e) (fold (\<lambda>(n, v). AList.update n v) props (items e)) (exclude_from_indexes e)"

text \<open>
  \<^verbatim>\<open>_get_value_from_value_pb\<close> tests the fields in a fixed order and takes the first one
  that is set; the list is taken when it has an element. \<^verbatim>\<open>entity_from_protobuf\<close> calls
  it for each property (through \<^verbatim>\<open>_get_value_from_property_pb\<close>) and is called by it for
  an entity value. \<open>get_values\<close> is the list comprehension of line 217, and
  \<open>entity_from_protobuf_loop\<close> the loop of lines 52 to 69 over the properties still to
  read, with \<^verbatim>\<open>entity_props\<close> and \<^verbatim>\<open>exclude_from_indexes\<close> as they stand.
\<close>

fun get_value_from_value_pb :: "Value_pb \<Rightarrow> error + pyval"
and get_values :: "Value_pb list \<Rightarrow> error + pyval list"
and entity_from_protobuf :: "Entity_pb \<Rightarrow> error + Entity"
and entity_from_protobuf_loop ::
  "Property_pb list \<Rightarrow> (string \<times> pyval) list \<Rightarrow> string list
     \<Rightarrow> error + ((string \<times> pyval) list \<times> string list)"
where
  "get_value_from_value_pb (Value_pb ts kv bv dv iv sv blv ev lv ix) =
     (case ts of
        Some microseconds \<Rightarrow>
          (if datetime_min \<le> microseconds \<and> microseconds \<le> datetime_max
           then Inr (PDatetime (replace_tzinfo \<lparr>wall_clock = microseconds, tzinfo = None\<rparr> utc))
           else Inl OverflowError)
      | None \<Rightarrow>
     (case kv of
        Some k \<Rightarrow> (case key_from_protobuf k of Inl e \<Rightarrow> Inl e | Inr r \<Rightarrow> Inr (PKey r))
      | None \<Rightarrow>
     (case bv of Some b \<Rightarrow> Inr (PBool b) | None \<Rightarrow>
     (case dv of Some d \<Rightarrow> Inr (PFloat d) | None \<Rightarrow>
     (case iv of Some i \<Rightarrow> Inr (PInt i) | None \<Rightarrow>
     (case sv of Some s \<Rightarrow> Inr (PText s) | None \<Rightarrow>
     (case blv of Some b \<Rightarrow> Inr (PBytes b) | None \<Rightarrow>
     (case ev of
        Some e_pb \<Rightarrow>
          (case entity_from_protobuf e_pb of Inl e \<Rightarrow> Inl e | Inr r \<Rightarrow> Inr (PEntity r))
      | None \<Rightarrow>
     (if lv \<noteq> []
      then (case get_values lv of Inl e \<Rightarrow> Inl e | Inr r \<Rightarrow> Inr (PList r))
      else Inr PNone)))))))))"
| "get_values [] = Inr []"
| "get_values (x # xs) =
     (case get_value_from_value_pb x of
        Inl e \<Rightarrow> Inl e
      | Inr v \<Rightarrow> (case get_values xs of Inl e \<Rightarrow> Inl e | Inr vs \<Rightarrow> Inr (v # vs)))"
| "entity_from_protobuf (Entity_pb k props) =
     (case key_from_protobuf k of
        Inl e \<Rightarrow> Inl e
      | Inr r \<Rightarrow>
          (case entity_from_protobuf_loop props [] [] of
             Inl e \<Rightarrow> Inl e
           | Inr (entity_props, excl) \<Rightarrow>
               Inr (Entity_update (Entity_init (Some r) excl) entity_props)))"
| "entity_from_protobuf_loop [] entity_props excl = Inr (entity_props, excl)"
| "entity_from_protobuf_loop (Property_pb n value_pb # rest) entity_props excl =
     (case get_value_from_value_pb value_pb of
        Inl e \<Rightarrow> Inl e
      | Inr v \<Rightarrow>
          (let entity_props = AList.update n v entity_props
           in if isinstance_list v
              then (let indexed_values = set (map indexed (list_value value_pb))
                    in if card indexed_values \<noteq> 1 then Inl InconsistentIndexing
                       else if \<not> the_elem indexed_values
                         then entity_from_protobuf_loop rest entity_props (excl @ [n])
                       else entity_from_protobuf_loop rest entity_props excl)
              else (if \<not> indexed value_pb
                    then entity_from_protobuf_loop rest entity_props (excl @ [n])
                    else entity_from_protobuf_loop rest entity_props excl)))"

definition get_value_from_property_pb :: "Property_pb \<Rightarrow> error + pyval" where
  "get_value_from_property_pb property_pb = get_value_from_value_pb (prop_value property_pb)"

section \<open>_set_protobuf_value\<close>

text \<open>
  The function assigns into the message it is given and leaves the other fields as they
  are; the model takes the message and returns it updated. A list is appended to the
  elements the message has already; an entity replaces what \<^verbatim>\<open>entity_value\<close> held.
  \<open>set_list_items\<close> is the loop of lines 276 to 278 and \<open>set_entity_properties\<close> the loop
  of lines 270 to 273, each adding to the repeated field given as first argument.
\<close>

definition set_timestamp_microseconds_value :: "Value_pb \<Rightarrow> int \<Rightarrow> Value_pb" where
  "set_timestamp_microseconds_value p x =
     (case p of Value_pb ts kv bv dv iv sv blv ev lv ix \<Rightarrow>
        Value_pb (Some x) kv bv dv iv sv blv ev lv ix)"

definition set_key_value :: "Value_pb \<Rightarrow> Key_pb \<Rightarrow> Value_pb" where
  "set_key_value p x =
     (case p of Value_pb ts kv bv dv iv sv blv ev lv ix \<Rightarrow>
        Value_pb ts (Some x) bv dv iv sv blv ev lv ix)"

definition set_boolean_value :: "Value_pb \<Rightarrow> bool \<Rightarrow> Value_pb" where
  "set_boolean_value p x =
     (case p of Value_pb ts kv bv dv iv sv blv ev lv ix \<Rightarrow>
        Value_pb ts kv (Some x) dv iv sv blv ev lv ix)"

definition set_double_value :: "Value_pb \<Rightarrow> double \<Rightarrow> Value_pb" where
  "set_double_value p x =
     (case p of Value_pb ts kv bv dv iv sv blv ev lv ix \<Rightarrow>
        Value_pb ts kv bv (Some x) iv sv blv ev lv ix)"

definition set_integer_value :: "Value_pb \<Rightarrow> int \<Rightarrow> Value_pb" where
  "set_integer_value p x =
     (case p of Value_pb ts kv bv dv iv sv blv ev lv ix \<Rightarrow>
        Value_pb ts kv bv dv (Some x) sv blv ev lv ix)"

definition set_string_value :: "Value_pb \<Rightarrow> string \<Rightarrow> Value_pb" where
  "set_string_value p x =
     (case p of Value_pb ts kv bv dv iv sv blv ev lv ix \<Rightarrow>
        Value_pb ts kv bv dv iv (Some x) blv ev lv ix)"

definition set_blob_value :: "Value_pb \<Rightarrow> string \<Rightarrow> Value_pb" where
  "set_blob_value p x =
     (case p of Value_pb ts kv bv dv iv sv blv ev lv ix \<Rightarrow>
        Value_pb ts kv bv dv iv sv (Some x) ev lv ix)"

definition set_entity_value :: "Value_pb \<Rightarrow> Entity_pb \<Rightarrow> Value_pb" where
  "set_entity_value p x =
     (case p of Value_pb ts kv bv dv iv sv blv ev lv ix \<Rightarrow>
        Value_pb ts kv bv dv iv sv blv (Some x) lv ix)"

definition set_list_value :: "Value_pb \<Rightarrow> Value_pb list \<Rightarrow> Value_pb" where
  "set_list_value p x =
     (case p of Value_pb ts kv bv dv iv sv blv ev lv ix \<Rightarrow>
        Value_pb ts kv bv dv iv sv blv ev x ix)"

lemma pb_attr_value_entity: "pb_attr_value val = Inr (entity_attr e) \<Longrightarrow> val = PEntity e"
  by (cases val) (auto simp: Let_def split: sum.splits)

lemma pb_attr_value_list: "pb_attr_value val = Inr (list_attr xs) \<Longrightarrow> val = PList xs"
  by (cases val) (auto simp: Let_def split: sum.splits)

lemma size_items: "size_list (size_prod (\<lambda>_. 0) size) (items e) < Suc (size e)"
  by (cases e) simp

function set_protobuf_value :: "Value_pb \<Rightarrow> pyval \<Rightarrow> error + Value_pb"
and set_list_items :: "Value_pb list \<Rightarrow> pyval list \<Rightarrow> error + Value_pb list"
and set_entity_properties ::
  "Property_pb list \<Rightarrow> (string \<times> pyval) list \<Rightarrow> error + Property_pb list"
where
  "set_protobuf_value value_pb val =
     (if val = PNone then Inr Value_pb_default
      else case pb_attr_value val of
        Inl e \<Rightarrow> Inl e
      | Inr (key_attr k) \<Rightarrow> Inr (set_key_value value_pb k)
      | Inr (entity_attr ent) \<Rightarrow>
          (case (case key ent of
                   None \<Rightarrow> Inr Key_pb_default
                 | Some k \<Rightarrow> to_protobuf k) of
             Inl e \<Rightarrow> Inl e
           | Inr key_pb \<Rightarrow>
               (case set_entity_properties [] (items ent) of
                  Inl e \<Rightarrow> Inl e
                | Inr props \<Rightarrow> Inr (set_entity_value value_pb (Entity_pb key_pb props))))
      | Inr (list_attr l) \<Rightarrow>
          (case set_list_items (list_value value_pb) l of
             Inl e \<Rightarrow> Inl e
           | Inr l_pb \<Rightarrow> Inr (set_list_value value_pb l_pb))
      | Inr (timestamp_microseconds_attr x) \<Rightarrow> Inr (set_timestamp_microseconds_value value_pb x)
      | Inr (boolean_attr x) \<Rightarrow> Inr (set_boolean_value value_pb x)
      | Inr (double_attr x) \<Rightarrow> Inr (set_double_value value_pb x)
      | Inr (integer_attr x) \<Rightarrow> Inr (set_integer_value value_pb x)
      | Inr (string_attr x) \<Rightarrow> Inr (set_string_value value_pb x)
      | Inr (blob_attr x) \<Rightarrow> Inr (set_blob_value value_pb x))"
| "set_list_items l_pb [] = Inr l_pb"
| "set_list_items l_pb (item # rest) =
     (case set_protobuf_value Value_pb_default item of
        Inl e \<Rightarrow> Inl e
      | Inr i_pb \<Rightarrow> set_list_items (l_pb @ [i_pb]) rest)"
| "set_entity_properties property_pb [] = Inr property_pb"
| "set_entity_properties property_pb ((item_key, v) # rest) =
     (case set_protobuf_value Value_pb_default v of
        Inl e \<Rightarrow> Inl e
      | Inr p_value \<Rightarrow>
          set_entity_properties (property_pb @ [Property_pb item_key p_value]) rest)"
  by pat_completeness auto
termination
  by (relation "measure (\<lambda>x. case x of
          Inl (p, v) \<Rightarrow> size v
        | Inr (Inl (l, vs)) \<Rightarrow> size_list size vs
        | Inr (Inr (ps, kvs)) \<Rightarrow> size_list (size_prod (\<lambda>_. 0) size) kvs)")
     (auto dest!: pb_attr_value_entity pb_attr_value_list simp: size_items)

section \<open>_prepare_key_for_request\<close>

definition prepare_key_for_request :: "Key_pb \<Rightarrow> Key_pb" where
  "prepare_key_for_request key_pb =
     (if pb_dataset_id (partition_id key_pb) \<noteq> None
      then key_pb\<lparr>partition_id := (partition_id key_pb)\<lparr>pb_dataset_id := None\<rparr>\<rparr>
      else key_pb)"

section \<open>_dataset_ids_equal\<close>

definition startswith :: "string \<Rightarrow> string \<Rightarrow> bool" where
  "startswith s p = (take (length p) s = p)"

definition dataset_ids_equal :: "string \<Rightarrow> string \<Rightarrow> bool" where
  "dataset_ids_equal dataset_id1 dataset_id2 =
     (if dataset_id1 = dataset_id2 then True
      else if startswith dataset_id1 ''s~'' \<or> startswith dataset_id1 ''e~''
        then drop 2 dataset_id1 = dataset_id2
      else if startswith dataset_id2 ''s~'' \<or> startswith dataset_id2 ''e~''
        then dataset_id1 = drop 2 dataset_id2
      else False)"

text \<open>
  The dataset identifiers of the data model: a string is bare when it carries neither
  prefix, and a dataset identifier is a bare string or a bare string behind one prefix.
\<close>

definition is_prefixed :: "string \<Rightarrow> bool" where
  "is_prefixed s = (startswith s ''s~'' \<or> startswith s ''e~'')"

definition dataset_identifier :: "string \<Rightarrow> bool" where
  "dataset_identifier s = (\<not> is_prefixed s \<or> \<not> is_prefixed (drop 2 s))"

text \<open>
  The reading of a path element that section 4.3 of the specification gives: the kind
  with the numeric ID if present, else the name if present, else nothing.
\<close>

definition at_most_one_identifier :: "PathElement \<Rightarrow> bool" where
  "at_most_one_identifier element = (pe_id element = None \<or> pe_name element = None)"

definition has_identifier :: "PathElement \<Rightarrow> bool" where
  "has_identifier element = (pe_id element \<noteq> None \<or> pe_name element \<noteq> None)"

definition segment_of_element :: "PathElement \<Rightarrow> string \<times> path_arg option" where
  "segment_of_element element =
     (pe_kind element,
      case pe_id element of
        Some i \<Rightarrow> Some (Num i)
      | None \<Rightarrow> (case pe_name element of Some n \<Rightarrow> Some (Str n) | None \<Rightarrow> None))"

text \<open>
  The words of the indexing rule, for a property of a wire entity: the property is
  list-valued when its wire value holds a list, that is, none of the fields tested before
  the list is set and the list has an element; its flags are the \<^verbatim>\<open>indexed\<close> flags
  of the elements; they agree when all are true or all are false; the property is
  excluded when its flag, the common flag of the elements for a list, is false. The
  value of a property decodes when \<^verbatim>\<open>_get_value_from_property_pb\<close> returns.
\<close>

definition decodes :: "Property_pb \<Rightarrow> bool" where
  "decodes p = (case get_value_from_value_pb (prop_value p) of Inr _ \<Rightarrow> True | Inl _ \<Rightarrow> False)"

definition list_valued :: "Property_pb \<Rightarrow> bool" where
  "list_valued p =
     (timestamp_microseconds_value (prop_value p) = None \<and> key_value (prop_value p) = None
      \<and> boolean_value (prop_value p) = None \<and> double_value (prop_value p) = None
      \<and> integer_value (prop_value p) = None \<and> string_value (prop_value p) = None
      \<and> blob_value (prop_value p) = None \<and> entity_value (prop_value p) = None
      \<and> list_value (prop_value p) \<noteq> [])"

definition flags :: "Property_pb \<Rightarrow> bool list" where
  "flags p = map indexed (list_value (prop_value p))"

definition same_flag :: "Property_pb \<Rightarrow> bool" where
  "same_flag p = (list_all (\<lambda>b. b) (flags p) \<or> list_all Not (flags p))"

definition inconsistent :: "Property_pb \<Rightarrow> bool" where
  "inconsistent p = (list_valued p \<and> \<not> same_flag p)"

definition excluded :: "Property_pb \<Rightarrow> bool" where
  "excluded p = (if list_valued p then list_all Not (flags p) else \<not> indexed (prop_value p))"

text \<open>
  A decoded value holds no empty list: neither the value itself, nor an element of a
  list in it, nor a property of an entity in it.
\<close>

fun no_empty_list :: "pyval \<Rightarrow> bool"
and no_empty_list_values :: "pyval list \<Rightarrow> bool"
and no_empty_list_items :: "(string \<times> pyval) list \<Rightarrow> bool"
where
  "no_empty_list (PList xs) = (xs \<noteq> [] \<and> no_empty_list_values xs)"
| "no_empty_list (PEntity (Entity k its ex)) = no_empty_list_items its"
| "no_empty_list PNone = True"
| "no_empty_list (PDatetime d) = True"
| "no_empty_list (PKey k) = True"
| "no_empty_list (PBool b) = True"
| "no_empty_list (PFloat f) = True"
| "no_empty_list (PInt i) = True"
| "no_empty_list (PText s) = True"
| "no_empty_list (PBytes s) = True"
| "no_empty_list POther = True"
| "no_empty_list_values [] = True"
| "no_empty_list_values (x # xs) = (no_empty_list x \<and> no_empty_list_values xs)"
| "no_empty_list_items [] = True"
| "no_empty_list_items ((n, v) # rest) = (no_empty_list v \<and> no_empty_list_items rest)"

text \<open>
  No recognised tag is populated: none of the eight optional fields is set and the list
  has no element.
\<close>

definition no_tag_populated :: "Value_pb \<Rightarrow> bool" where
  "no_tag_populated pb =
     (timestamp_microseconds_value pb = None \<and> key_value pb = None
      \<and> boolean_value pb = None \<and> double_value pb = None \<and> integer_value pb = None
      \<and> string_value pb = None \<and> blob_value pb = None \<and> entity_value pb = None
      \<and> list_value pb = [])"



section \<open>Dataset identifiers\<close>

lemma startswith2: "length p = 2 \<Longrightarrow> startswith s p \<longleftrightarrow> s = p @ drop 2 s"
  unfolding startswith_def by (metis append_take_drop_id append_eq_conv_conj)

lemma startswith_append: "startswith (p @ s) p"
  by (simp add: startswith_def)

text \<open>
  Claim C3. For dataset identifiers \<open>a\<close> and \<open>b\<close>, \<^verbatim>\<open>_dataset_ids_equal(a, b)\<close> is
  true exactly when the two are textually equal, or one of them is bare and the other is
  that bare string behind \<^verbatim>\<open>s~\<close> or \<^verbatim>\<open>e~\<close>. The witness has the four examples of
  the claim. (On a string with two prefixes, which is no dataset identifier, the
  function compares what follows the first prefix: \<^verbatim>\<open>s~e~foo\<close> and \<^verbatim>\<open>e~foo\<close> are
  reported equal.)
\<close>

theorem dataset_ids_equal_iff:
  assumes "dataset_identifier a" and "dataset_identifier b"
  shows "dataset_ids_equal a b \<longleftrightarrow>
           a = b
         \<or> (\<not> is_prefixed a \<and> (b = ''s~'' @ a \<or> b = ''e~'' @ a))
         \<or> (\<not> is_prefixed b \<and> (a = ''s~'' @ b \<or> a = ''e~'' @ b))"
proof (cases "a = b")
  case True
  then show ?thesis by (simp add: dataset_ids_equal_def)
next
  case ne: False
  show ?thesis
  proof (cases "is_prefixed a")
    case pa: True
    then have code: "dataset_ids_equal a b \<longleftrightarrow> drop 2 a = b"
      using ne by (simp add: dataset_ids_equal_def is_prefixed_def)
    from pa have shape: "a = ''s~'' @ drop 2 a \<or> a = ''e~'' @ drop 2 a"
      unfolding is_prefixed_def using startswith2 [of "''s~''" a] startswith2 [of "''e~''" a]
      by simp
    from pa assms(1) have bare: "\<not> is_prefixed (drop 2 a)"
      by (simp add: dataset_identifier_def)
    show ?thesis
    proof
      assume "dataset_ids_equal a b"
      with code have "drop 2 a = b" by simp
      with shape bare show "a = b
         \<or> (\<not> is_prefixed a \<and> (b = ''s~'' @ a \<or> b = ''e~'' @ a))
         \<or> (\<not> is_prefixed b \<and> (a = ''s~'' @ b \<or> a = ''e~'' @ b))" by auto
    next
      assume "a = b
         \<or> (\<not> is_prefixed a \<and> (b = ''s~'' @ a \<or> b = ''e~'' @ a))
         \<or> (\<not> is_prefixed b \<and> (a = ''s~'' @ b \<or> a = ''e~'' @ b))"
      with ne pa have "a = ''s~'' @ b \<or> a = ''e~'' @ b" by auto
      then have "drop 2 a = b" by auto
      with code show "dataset_ids_equal a b" by simp
    qed
  next
    case npa: False
    show ?thesis
    proof (cases "is_prefixed b")
      case pb: True
      then have code: "dataset_ids_equal a b \<longleftrightarrow> a = drop 2 b"
        using ne npa by (simp add: dataset_ids_equal_def is_prefixed_def)
      from pb have shape: "b = ''s~'' @ drop 2 b \<or> b = ''e~'' @ drop 2 b"
        unfolding is_prefixed_def using startswith2 [of "''s~''" b] startswith2 [of "''e~''" b]
        by simp
      show ?thesis
      proof
        assume "dataset_ids_equal a b"
        with code have "a = drop 2 b" by simp
        with shape npa show "a = b
         \<or> (\<not> is_prefixed a \<and> (b = ''s~'' @ a \<or> b = ''e~'' @ a))
         \<or> (\<not> is_prefixed b \<and> (a = ''s~'' @ b \<or> a = ''e~'' @ b))" by auto
      next
        assume "a = b
         \<or> (\<not> is_prefixed a \<and> (b = ''s~'' @ a \<or> b = ''e~'' @ a))
         \<or> (\<not> is_prefixed b \<and> (a = ''s~'' @ b \<or> a = ''e~'' @ b))"
        with ne pb have "b = ''s~'' @ a \<or> b = ''e~'' @ a" by auto
        then have "a = drop 2 b" by auto
        with code show "dataset_ids_equal a b" by simp
      qed
    next
      case npb: False
      then have "\<not> dataset_ids_equal a b"
        using ne npa by (simp add: dataset_ids_equal_def is_prefixed_def)
      moreover have "a \<noteq> ''s~'' @ b" "a \<noteq> ''e~'' @ b" "b \<noteq> ''s~'' @ a" "b \<noteq> ''e~'' @ a"
        using npa npb startswith_append [of "''s~''"] startswith_append [of "''e~''"]
        by (auto simp: is_prefixed_def)
      ultimately show ?thesis using ne by simp
    qed
  qed
qed

theorem dataset_ids_equal_iff_witness:
  "dataset_identifier ''foo'' \<and> dataset_identifier ''s~foo'' \<and> dataset_identifier ''e~foo''
   \<and> dataset_identifier ''s~bar''
   \<and> \<not> dataset_ids_equal ''s~foo'' ''e~foo''
   \<and> dataset_ids_equal ''foo'' ''s~foo''
   \<and> dataset_ids_equal ''foo'' ''e~foo''
   \<and> \<not> dataset_ids_equal ''foo'' ''s~bar''"
proof -
  have d: "dataset_identifier ''foo''" "dataset_identifier ''s~foo''"
    "dataset_identifier ''e~foo''" "dataset_identifier ''s~bar''"
    by (simp_all add: dataset_identifier_def is_prefixed_def startswith_def)
  show ?thesis
    using d dataset_ids_equal_iff [OF d(2) d(3)] dataset_ids_equal_iff [OF d(1) d(2)]
      dataset_ids_equal_iff [OF d(1) d(3)] dataset_ids_equal_iff [OF d(1) d(4)]
    by (simp add: is_prefixed_def startswith_def)
qed

section \<open>The integer range check\<close>

text \<open>
  Claim C6. Encoding an integer succeeds, under the integer tag, exactly when the
  integer lies in the signed 64-bit range, and fails with \<open>IntegerOverflow\<close> otherwise;
  \<open>2 ^ 63\<close> fails and \<open>2 ^ 63 - 1\<close> succeeds.
\<close>

theorem integer_range_check:
  "pb_attr_value (PInt v) =
     (if - (2 ^ 63) \<le> v \<and> v < 2 ^ 63 then Inr (integer_attr v) else Inl IntegerOverflow)
   \<and> set_protobuf_value value_pb (PInt v) =
     (if - (2 ^ 63) \<le> v \<and> v < 2 ^ 63 then Inr (set_integer_value value_pb v)
      else Inl IntegerOverflow)"
  by (auto simp: CheckValue_def)

theorem integer_range_check_witness:
  "pb_attr_value (PInt (2 ^ 63)) = Inl IntegerOverflow
   \<and> pb_attr_value (PInt (2 ^ 63 - 1)) = Inr (integer_attr (2 ^ 63 - 1))
   \<and> set_protobuf_value Value_pb_default (PInt (2 ^ 63)) = Inl IntegerOverflow
   \<and> set_protobuf_value Value_pb_default (PInt (2 ^ 63 - 1)) =
       Inr (Value_pb None None None None (Some (2 ^ 63 - 1)) None None None [] None)"
  using integer_range_check [of "2 ^ 63" Value_pb_default]
    integer_range_check [of "2 ^ 63 - 1" Value_pb_default]
  by (simp add: set_integer_value_def Value_pb_default_def)

section \<open>Naive timestamps\<close>

text \<open>
  Claim C7. A timestamp without a time zone is encoded as the same timestamp zoned as
  UTC is: the same attribute with the same payload, the microseconds of its reading
  since the epoch. It is the replacement of lines 144 and 145 that does it: the
  conversion to UTC refuses the naive value itself. The witness is 2021-01-01T00:00:00.
\<close>

theorem naive_timestamp_is_utc:
  assumes "tzinfo t = None"
  shows "pb_attr_value (PDatetime t) = pb_attr_value (PDatetime (replace_tzinfo t utc))
       \<and> set_protobuf_value value_pb (PDatetime t) =
           set_protobuf_value value_pb (PDatetime (replace_tzinfo t utc))
       \<and> (datetime_min \<le> wall_clock t \<and> wall_clock t \<le> datetime_max \<longrightarrow>
           pb_attr_value (PDatetime t) = Inr (timestamp_microseconds_attr (wall_clock t)))
       \<and> astimezone_utc t = Inl NaiveDatetime"
  using assms
  by (simp add: replace_tzinfo_def utc_def astimezone_utc_def timegm_timetuple_def
      microsecond_def Let_def)

theorem naive_timestamp_is_utc_witness:
  "tzinfo (mk_datetime 2021 1 1 0 0 0 0 None) = None
   \<and> pb_attr_value (PDatetime (mk_datetime 2021 1 1 0 0 0 0 None)) =
       pb_attr_value (PDatetime (mk_datetime 2021 1 1 0 0 0 0 utc))
   \<and> pb_attr_value (PDatetime (mk_datetime 2021 1 1 0 0 0 0 None)) =
       Inr (timestamp_microseconds_attr 1609459200000000)
   \<and> set_protobuf_value Value_pb_default (PDatetime (mk_datetime 2021 1 1 0 0 0 0 None)) =
       set_protobuf_value Value_pb_default (PDatetime (mk_datetime 2021 1 1 0 0 0 0 utc))"
proof -
  have n: "tzinfo (mk_datetime 2021 1 1 0 0 0 0 None) = None"
    by (simp add: mk_datetime_def)
  have r: "replace_tzinfo (mk_datetime 2021 1 1 0 0 0 0 None) utc = mk_datetime 2021 1 1 0 0 0 0 utc"
    by (simp add: mk_datetime_def replace_tzinfo_def)
  have v: "pb_attr_value (PDatetime (mk_datetime 2021 1 1 0 0 0 0 None)) =
       Inr (timestamp_microseconds_attr 1609459200000000)"
    by code_simp
  note t = naive_timestamp_is_utc [OF n, of Value_pb_default, unfolded r]
  from t have a: "pb_attr_value (PDatetime (mk_datetime 2021 1 1 0 0 0 0 None)) =
       pb_attr_value (PDatetime (mk_datetime 2021 1 1 0 0 0 0 utc))"
    by (rule conjunct1)
  from t have b: "set_protobuf_value Value_pb_default (PDatetime (mk_datetime 2021 1 1 0 0 0 0 None)) =
       set_protobuf_value Value_pb_default (PDatetime (mk_datetime 2021 1 1 0 0 0 0 utc))"
    by (rule conjunct1 [OF conjunct2])
  show ?thesis
    by (intro conjI n a v b)
qed

section \<open>Preparing a key for a request\<close>

text \<open>
  Claim C8. When the partition of a wire key carries a dataset_id, the prepared key has
  that field cleared and the namespace and the path elements unchanged; when it carries
  none, the prepared key is the key given.
\<close>

theorem prepare_key_for_request_frame:
  "(pb_dataset_id (partition_id key_pb) \<noteq> None \<longrightarrow>
      pb_dataset_id (partition_id (prepare_key_for_request key_pb)) = None
    \<and> pb_namespace (partition_id (prepare_key_for_request key_pb)) =
        pb_namespace (partition_id key_pb)
    \<and> path_element (prepare_key_for_request key_pb) = path_element key_pb)
   \<and> (pb_dataset_id (partition_id key_pb) = None \<longrightarrow>
        prepare_key_for_request key_pb = key_pb)"
  by (simp add: prepare_key_for_request_def)

theorem prepare_key_for_request_frame_witness:
  "prepare_key_for_request
     \<lparr>partition_id = \<lparr>pb_dataset_id = Some ''s~foo'', pb_namespace = Some ''ns''\<rparr>,
      path_element = [\<lparr>pe_kind = ''Person'', pe_id = Some 123, pe_name = None\<rparr>]\<rparr> =
     \<lparr>partition_id = \<lparr>pb_dataset_id = None, pb_namespace = Some ''ns''\<rparr>,
      path_element = [\<lparr>pe_kind = ''Person'', pe_id = Some 123, pe_name = None\<rparr>]\<rparr>
   \<and> prepare_key_for_request
     \<lparr>partition_id = \<lparr>pb_dataset_id = None, pb_namespace = Some ''ns''\<rparr>,
      path_element = [\<lparr>pe_kind = ''Person'', pe_id = Some 123, pe_name = None\<rparr>]\<rparr> =
     \<lparr>partition_id = \<lparr>pb_dataset_id = None, pb_namespace = Some ''ns''\<rparr>,
      path_element = [\<lparr>pe_kind = ''Person'', pe_id = Some 123, pe_name = None\<rparr>]\<rparr>"
  using prepare_key_for_request_frame
    [of "\<lparr>partition_id = \<lparr>pb_dataset_id = Some ''s~foo'', pb_namespace = Some ''ns''\<rparr>,
      path_element = [\<lparr>pe_kind = ''Person'', pe_id = Some 123, pe_name = None\<rparr>]\<rparr>"]
    prepare_key_for_request_frame
    [of "\<lparr>partition_id = \<lparr>pb_dataset_id = None, pb_namespace = Some ''ns''\<rparr>,
      path_element = [\<lparr>pe_kind = ''Person'', pe_id = Some 123, pe_name = None\<rparr>]\<rparr>"]
  by (simp add: prepare_key_for_request_def)

section \<open>Decoding keys\<close>

lemma parse_path_path_args_of:
  assumes "list_all at_most_one_identifier es"
    and "list_all has_identifier (butlast es)"
  shows "parse_path (path_args_of es) = Inr (map segment_of_element es)"
  using assms
proof (induction es)
  case Nil
  then show ?case by simp
next
  case (Cons e rest)
  show ?case
  proof (cases "rest = []")
    case True
    with Cons.prems show ?thesis
      by (auto simp: at_most_one_identifier_def segment_of_element_def split: option.splits)
  next
    case False
    with Cons.prems have ih: "parse_path (path_args_of rest) = Inr (map segment_of_element rest)"
      by (intro Cons.IH) auto
    from False Cons.prems have "has_identifier e" "at_most_one_identifier e"
      by auto
    then show ?thesis
      using ih
      by (auto simp: at_most_one_identifier_def has_identifier_def segment_of_element_def
          split: option.splits)
  qed
qed

lemma path_args_of_Nil: "path_args_of es = [] \<longleftrightarrow> es = []"
  by (cases es) auto

text \<open>
  Claim C9, as amended. For a wire key with at least one path element, in which each
  element has at most one of ID and name and every element but the last has one of
  them, decoding yields a key whose dataset_id and namespace are the partition's fields
  (\<open>None\<close> exactly when absent) and whose path has one segment per element in order:
  the kind with the ID if present, else the name if present, else nothing.
\<close>

theorem key_from_protobuf_path:
  assumes "path_element pb \<noteq> []"
    and "list_all at_most_one_identifier (path_element pb)"
    and "list_all has_identifier (butlast (path_element pb))"
  shows "key_from_protobuf pb =
           Inr \<lparr>path = map segment_of_element (path_element pb),
                namespace = pb_namespace (partition_id pb),
                dataset_id = pb_dataset_id (partition_id pb)\<rparr>"
  using assms
  by (simp add: key_from_protobuf_def Key_init_def parse_path_path_args_of path_args_of_Nil)

theorem key_from_protobuf_path_witness:
  "key_from_protobuf
     \<lparr>partition_id = \<lparr>pb_dataset_id = None, pb_namespace = Some ''ns''\<rparr>,
      path_element = [\<lparr>pe_kind = ''Person'', pe_id = Some 123, pe_name = None\<rparr>,
                      \<lparr>pe_kind = ''Address'', pe_id = None, pe_name = Some ''home''\<rparr>]\<rparr> =
   Inr \<lparr>path = [(''Person'', Some (Num 123)), (''Address'', Some (Str ''home''))],
        namespace = Some ''ns'', dataset_id = None\<rparr>"
proof -
  let ?pb = "\<lparr>partition_id = \<lparr>pb_dataset_id = None, pb_namespace = Some ''ns''\<rparr>,
      path_element = [\<lparr>pe_kind = ''Person'', pe_id = Some 123, pe_name = None\<rparr>,
                      \<lparr>pe_kind = ''Address'', pe_id = None, pe_name = Some ''home''\<rparr>]\<rparr>"
  have a: "path_element ?pb \<noteq> []" by simp
  have b: "list_all at_most_one_identifier (path_element ?pb)"
    by (simp add: at_most_one_identifier_def)
  have c: "list_all has_identifier (butlast (path_element ?pb))"
    by (simp add: has_identifier_def)
  show ?thesis
    using key_from_protobuf_path [OF a b c] by (simp add: segment_of_element_def)
qed

text \<open>
  Claim C9 as stated fails when an element before the last has neither ID nor name:
  \<^verbatim>\<open>path_args\<close> is flat, so the kind of the next element is taken for the name of
  this one. The elements \<open>(A, nothing)\<close>, \<open>(B, name x)\<close> are decoded to the path
  \<open>(A, name B)\<close>, \<open>(x, nothing)\<close>, as the elements \<open>(A, name B)\<close>, \<open>(x, nothing)\<close> are.
\<close>

theorem key_from_protobuf_incomplete_inner_counterexample:
  "list_all at_most_one_identifier
     [\<lparr>pe_kind = ''A'', pe_id = None, pe_name = None\<rparr>,
      \<lparr>pe_kind = ''B'', pe_id = None, pe_name = Some ''x''\<rparr>]
   \<and> map segment_of_element
       [\<lparr>pe_kind = ''A'', pe_id = None, pe_name = None\<rparr>,
        \<lparr>pe_kind = ''B'', pe_id = None, pe_name = Some ''x''\<rparr>] =
       [(''A'', None), (''B'', Some (Str ''x''))]
   \<and> key_from_protobuf
       \<lparr>partition_id = \<lparr>pb_dataset_id = None, pb_namespace = None\<rparr>,
        path_element = [\<lparr>pe_kind = ''A'', pe_id = None, pe_name = None\<rparr>,
                        \<lparr>pe_kind = ''B'', pe_id = None, pe_name = Some ''x''\<rparr>]\<rparr> =
     Inr \<lparr>path = [(''A'', Some (Str ''B'')), (''x'', None)], namespace = None, dataset_id = None\<rparr>
   \<and> key_from_protobuf
       \<lparr>partition_id = \<lparr>pb_dataset_id = None, pb_namespace = None\<rparr>,
        path_element = [\<lparr>pe_kind = ''A'', pe_id = None, pe_name = None\<rparr>,
                        \<lparr>pe_kind = ''B'', pe_id = None, pe_name = Some ''x''\<rparr>]\<rparr> =
     key_from_protobuf
       \<lparr>partition_id = \<lparr>pb_dataset_id = None, pb_namespace = None\<rparr>,
        path_element = [\<lparr>pe_kind = ''A'', pe_id = None, pe_name = Some ''B''\<rparr>,
                        \<lparr>pe_kind = ''x'', pe_id = None, pe_name = None\<rparr>]\<rparr>"
  by (simp add: at_most_one_identifier_def segment_of_element_def key_from_protobuf_def
      Key_init_def)

section \<open>The loop over the properties\<close>

lemma set_all_True:
  assumes "bs \<noteq> []" and "list_all (\<lambda>b. b) bs"
  shows "set bs = {True}"
proof -
  from assms(2) have sub: "set bs \<subseteq> {True}" by (auto simp: list_all_iff)
  from assms(1) have ne: "set bs \<noteq> {}" by simp
  from subset_singletonD [OF sub] ne show ?thesis by simp
qed

lemma set_all_False:
  assumes "bs \<noteq> []" and "list_all Not bs"
  shows "set bs = {False}"
proof -
  from assms(2) have sub: "set bs \<subseteq> {False}" by (auto simp: list_all_iff)
  from assms(1) have ne: "set bs \<noteq> {}" by simp
  from subset_singletonD [OF sub] ne show ?thesis by simp
qed

lemma card_flags:
  assumes "bs \<noteq> []"
  shows "card (set bs) = 1 \<longleftrightarrow> list_all (\<lambda>b. b) bs \<or> list_all Not bs"
proof
  assume "card (set bs) = 1"
  then obtain b where b: "set bs = {b}"
    by (auto simp: card_1_singleton_iff)
  then show "list_all (\<lambda>b. b) bs \<or> list_all Not bs"
    by (cases b) (auto simp: list_all_iff)
next
  assume h: "list_all (\<lambda>b. b) bs \<or> list_all Not bs"
  show "card (set bs) = 1"
  proof (rule disjE [OF h])
    assume "list_all (\<lambda>b. b) bs"
    from set_all_True [OF assms this] show ?thesis by simp
  next
    assume "list_all Not bs"
    from set_all_False [OF assms this] show ?thesis by simp
  qed
qed

lemma the_elem_flags:
  assumes "bs \<noteq> []" and "card (set bs) = 1"
  shows "the_elem (set bs) \<longleftrightarrow> list_all (\<lambda>b. b) bs"
proof -
  from assms(2) obtain b where b: "set bs = {b}"
    by (auto simp: card_1_singleton_iff)
  then show ?thesis
    by (cases b) (auto simp: list_all_iff)
qed

lemma all_Not_flags:
  assumes "bs \<noteq> []" and "card (set bs) = 1"
  shows "list_all Not bs \<longleftrightarrow> \<not> list_all (\<lambda>b. b) bs"
proof -
  from assms(2) obtain b where b: "set bs = {b}"
    by (auto simp: card_1_singleton_iff)
  then show ?thesis
    by (cases b) (auto simp: list_all_iff)
qed

lemma get_values_Nil: "get_values lv = Inr [] \<Longrightarrow> lv = []"
  by (cases lv) (auto split: sum.splits)

lemma decoded_list_nonempty:
  assumes "get_value_from_value_pb value_pb = Inr v" and "isinstance_list v"
  shows "list_value value_pb \<noteq> []"
proof (cases value_pb)
  case (Value_pb ts kv bv dv iv sv blv ev lv ix)
  from assms(2) obtain xs where "v = PList xs" by (cases v) auto
  with assms(1) Value_pb show ?thesis
    by (auto split: option.splits sum.splits if_splits)
qed

lemma list_valued_iff:
  assumes "get_value_from_value_pb (prop_value p) = Inr v"
  shows "isinstance_list v \<longleftrightarrow> list_valued p"
proof (cases "prop_value p")
  case (Value_pb ts kv bv dv iv sv blv ev lv ix)
  show ?thesis
  proof
    assume "isinstance_list v"
    then obtain xs where "v = PList xs" by (cases v) auto
    with assms Value_pb show "list_valued p"
      by (auto simp: list_valued_def split: option.splits sum.splits if_splits)
  next
    assume "list_valued p"
    with Value_pb have "ts = None" "kv = None" "bv = None" "dv = None" "iv = None"
      "sv = None" "blv = None" "ev = None" "lv \<noteq> []"
      by (simp_all add: list_valued_def)
    with assms Value_pb obtain r where "v = PList r"
      by (auto split: sum.splits)
    then show "isinstance_list v" by simp
  qed
qed

lemma loop_step_fail:
  assumes "get_value_from_value_pb (prop_value p) = Inl e"
  shows "entity_from_protobuf_loop (p # rest) ep ex = Inl e"
  using assms by (cases p) simp

lemma loop_step:
  assumes "get_value_from_value_pb (prop_value p) = Inr v"
  shows "entity_from_protobuf_loop (p # rest) ep ex =
          (if inconsistent p then Inl InconsistentIndexing
           else entity_from_protobuf_loop rest (AList.update (prop_name p) v ep)
                  (if excluded p then ex @ [prop_name p] else ex))"
proof (cases p)
  case (Property_pb n value_pb)
  with assms have v: "get_value_from_value_pb value_pb = Inr v" by simp
  show ?thesis
  proof (cases "isinstance_list v")
    case False
    with list_valued_iff [OF assms] have "\<not> list_valued p" by simp
    with False v Property_pb show ?thesis
      by (simp add: Let_def inconsistent_def excluded_def)
  next
    case True
    with v have ne: "map indexed (list_value value_pb) \<noteq> []"
      using decoded_list_nonempty by simp
    from True list_valued_iff [OF assms] have lv: "list_valued p" by simp
    have fl: "flags p = map indexed (list_value value_pb)"
      using Property_pb by (simp add: flags_def)
    show ?thesis
    proof (cases "card (set (map indexed (list_value value_pb))) = 1")
      case c: False
      with card_flags [OF ne] have "\<not> same_flag p"
        unfolding same_flag_def fl by blast
      with c lv True v Property_pb show ?thesis
        by (simp add: Let_def inconsistent_def)
    next
      case c: True
      with card_flags [OF ne] have sf: "same_flag p"
        unfolding same_flag_def fl by blast
      have "excluded p \<longleftrightarrow> \<not> the_elem (set (map indexed (list_value value_pb)))"
        using lv the_elem_flags [OF ne c] all_Not_flags [OF ne c]
        unfolding excluded_def fl by simp
      with c sf lv True v Property_pb show ?thesis
        by (simp add: Let_def inconsistent_def)
    qed
  qed
qed

lemma loop_ok:
  assumes "list_all2 (\<lambda>p v. get_value_from_value_pb (prop_value p) = Inr v) props vs"
    and "\<not> list_ex inconsistent props"
  shows "entity_from_protobuf_loop props ep ex =
           Inr (fold (\<lambda>(n, v). AList.update n v) (zip (map prop_name props) vs) ep,
                ex @ map prop_name (filter excluded props))"
  using assms
proof (induction props vs arbitrary: ep ex rule: list_all2_induct)
  case Nil
  show ?case by simp
next
  case (Cons p props v vs)
  from Cons.prems have "\<not> inconsistent p" "\<not> list_ex inconsistent props" by auto
  with Cons.hyps(1) Cons.IH show ?case
    by (simp add: loop_step)
qed

lemma loop_inconsistent:
  assumes "list_all decodes props" and "list_ex inconsistent props"
  shows "entity_from_protobuf_loop props ep ex = Inl InconsistentIndexing"
  using assms
proof (induction props arbitrary: ep ex)
  case Nil
  then show ?case by simp
next
  case (Cons p props)
  from Cons.prems(1) obtain v where v: "get_value_from_value_pb (prop_value p) = Inr v"
    by (auto simp: decodes_def split: sum.splits)
  show ?case
  proof (cases "inconsistent p")
    case True
    with v show ?thesis by (simp add: loop_step)
  next
    case False
    with Cons.prems have "list_all decodes props" "list_ex inconsistent props" by auto
    with Cons.IH False v show ?thesis by (simp add: loop_step)
  qed
qed

lemma decodes_list_all2:
  "list_all decodes props \<Longrightarrow>
   \<exists>vs. list_all2 (\<lambda>p v. get_value_from_value_pb (prop_value p) = Inr v) props vs"
proof (induction props)
  case Nil
  show ?case by simp
next
  case (Cons p props)
  then obtain vs where "list_all2 (\<lambda>p v. get_value_from_value_pb (prop_value p) = Inr v) props vs"
    by auto
  moreover from Cons.prems obtain v where "get_value_from_value_pb (prop_value p) = Inr v"
    by (auto simp: decodes_def split: sum.splits)
  ultimately have "list_all2 (\<lambda>p v. get_value_from_value_pb (prop_value p) = Inr v)
      (p # props) (v # vs)" by simp
  then show ?case by blast
qed

lemma loop_Inr:
  assumes "entity_from_protobuf_loop props ep ex = Inr r"
  shows "\<exists>vs. list_all2 (\<lambda>p v. get_value_from_value_pb (prop_value p) = Inr v) props vs
           \<and> fst r = fold (\<lambda>(n, v). AList.update n v) (zip (map prop_name props) vs) ep"
  using assms
proof (induction props arbitrary: ep ex)
  case Nil
  then show ?case by auto
next
  case (Cons p props)
  show ?case
  proof (cases "get_value_from_value_pb (prop_value p)")
    case (Inl e)
    with Cons.prems show ?thesis by (simp add: loop_step_fail)
  next
    case (Inr v)
    with Cons.prems obtain ex' where
      "entity_from_protobuf_loop props (AList.update (prop_name p) v ep) ex' = Inr r"
      by (auto simp: loop_step split: if_splits)
    from Cons.IH [OF this] obtain vs where
      vs: "list_all2 (\<lambda>p v. get_value_from_value_pb (prop_value p) = Inr v) props vs"
      "fst r = fold (\<lambda>(n, v). AList.update n v) (zip (map prop_name props) vs)
                 (AList.update (prop_name p) v ep)"
      by blast
    with Inr have "list_all2 (\<lambda>p v. get_value_from_value_pb (prop_value p) = Inr v)
        (p # props) (v # vs)
      \<and> fst r = fold (\<lambda>(n, v). AList.update n v) (zip (map prop_name (p # props)) (v # vs)) ep"
      by simp
    then show ?thesis by blast
  qed
qed


lemma get_values_Inr:
  "get_values lv = Inr vs \<Longrightarrow> list_all2 (\<lambda>x v. get_value_from_value_pb x = Inr v) lv vs"
proof (induction lv arbitrary: vs)
  case Nil
  then show ?case by simp
next
  case (Cons x xs)
  from Cons.prems obtain v ws where
    "get_value_from_value_pb x = Inr v" "get_values xs = Inr ws" "vs = v # ws"
    by (auto split: sum.splits)
  with Cons.IH [of ws] show ?case by simp
qed



section \<open>Errors and results of decoding\<close>



lemma entity_from_protobuf_Inr:
  assumes "entity_from_protobuf (Entity_pb k props) = Inr r"
  shows "\<exists>kk ep ex. key_from_protobuf k = Inr kk
           \<and> entity_from_protobuf_loop props [] [] = Inr (ep, ex)
           \<and> r = Entity_update (Entity_init (Some kk) ex) ep"
  using assms by (auto split: sum.splits prod.splits)


lemma untagged_decodes_to_None:
  "no_tag_populated pb \<Longrightarrow> get_value_from_value_pb pb = Inr PNone"
  by (cases pb) (simp add: no_tag_populated_def)

lemma no_empty_list_values_iff: "no_empty_list_values vs \<longleftrightarrow> list_all no_empty_list vs"
  by (induction vs) auto

lemma no_empty_list_items_iff:
  "no_empty_list_items its \<longleftrightarrow> list_all (\<lambda>kv. no_empty_list (snd kv)) its"
  by (induction its) auto

lemma no_empty_list_items_update:
  "no_empty_list v \<Longrightarrow> no_empty_list_items ps \<Longrightarrow> no_empty_list_items (AList.update n v ps)"
  by (induction ps) auto

lemma no_empty_list_items_fold:
  "no_empty_list_items ps \<Longrightarrow> no_empty_list_items acc \<Longrightarrow>
   no_empty_list_items (fold (\<lambda>(n, v). AList.update n v) ps acc)"
  by (induction ps arbitrary: acc) (auto simp: no_empty_list_items_update)

lemma no_empty_list_items_zip:
  "list_all no_empty_list vs \<Longrightarrow> no_empty_list_items (zip ns vs)"
proof (induction vs arbitrary: ns)
  case Nil
  show ?case by simp
next
  case (Cons a vs)
  then show ?case by (cases ns) auto
qed

lemma list_all2_decoded:
  assumes "list_all2 (\<lambda>x v. f x = Inr v) xs vs"
    and "\<And>x v. x \<in> set xs \<Longrightarrow> f x = Inr v \<Longrightarrow> Q v"
  shows "list_all Q vs"
  using assms by (induction xs vs rule: list_all2_induct) auto

lemma decoded_no_empty_list:
  fixes pb :: Value_pb and e :: Entity_pb and p :: Property_pb
  shows "\<forall>v. get_value_from_value_pb pb = Inr v \<longrightarrow> no_empty_list v"
    and "\<forall>r. entity_from_protobuf e = Inr r \<longrightarrow> no_empty_list (PEntity r)"
    and "\<forall>v. get_value_from_value_pb (prop_value p) = Inr v \<longrightarrow> no_empty_list v"
proof (induction pb and e and p)
  case (Value_pb ts kv bv dv iv sv blv ev lv ix)
  show ?case
  proof (intro allI impI)
    fix v
    assume d: "get_value_from_value_pb (Value_pb ts kv bv dv iv sv blv ev lv ix) = Inr v"
    show "no_empty_list v"
    proof (cases "ts = None \<and> kv = None \<and> bv = None \<and> dv = None \<and> iv = None \<and> sv = None
        \<and> blv = None")
      case False
      with d show ?thesis
        by (auto split: option.splits if_splits sum.splits)
    next
      case scalars: True
      show ?thesis
      proof (cases ev)
        case (Some e_pb)
        with scalars d obtain r where "entity_from_protobuf e_pb = Inr r" "v = PEntity r"
          by (auto split: sum.splits)
        with Value_pb.IH(1) [of e_pb] Some show ?thesis by simp
      next
        case None
        show ?thesis
        proof (cases "lv = []")
          case True
          with scalars None d show ?thesis by auto
        next
          case False
          with scalars None d obtain r where r: "get_values lv = Inr r" "v = PList r"
            by (auto split: sum.splits)
          with False have ne: "r \<noteq> []" using get_values_Nil by blast
          from r(1) have l2: "list_all2 (\<lambda>x v. get_value_from_value_pb x = Inr v) lv r"
            by (rule get_values_Inr)
          have "list_all no_empty_list r"
          proof (rule list_all2_decoded [OF l2])
            fix x w
            assume "x \<in> set lv" "get_value_from_value_pb x = Inr w"
            with Value_pb.IH(2) show "no_empty_list w" by blast
          qed
          with ne r show ?thesis by (simp add: no_empty_list_values_iff)
        qed
      qed
    qed
  qed
next
  case (Entity_pb k props)
  show ?case
  proof (intro allI impI)
    fix r
    assume "entity_from_protobuf (Entity_pb k props) = Inr r"
    from entity_from_protobuf_Inr [OF this] obtain kk ep ex where
      l: "entity_from_protobuf_loop props [] [] = Inr (ep, ex)"
      and r: "r = Entity_update (Entity_init (Some kk) ex) ep"
      by blast
    from loop_Inr [OF l] obtain vs where
      vs: "list_all2 (\<lambda>p v. get_value_from_value_pb (prop_value p) = Inr v) props vs"
      and ep: "ep = fold (\<lambda>(n, v). AList.update n v) (zip (map prop_name props) vs) []"
      by auto
    have "list_all no_empty_list vs"
    proof (rule list_all2_decoded [OF vs])
      fix x w
      assume "x \<in> set props" "get_value_from_value_pb (prop_value x) = Inr w"
      with Entity_pb.IH show "no_empty_list w" by blast
    qed
    then have "no_empty_list_items ep"
      unfolding ep by (intro no_empty_list_items_fold no_empty_list_items_zip) simp_all
    then show "no_empty_list (PEntity r)"
      by (simp add: r Entity_update_def Entity_init_def no_empty_list_items_fold)
  qed
next
  case (Property_pb n value_pb)
  then show ?case by simp
qed


text \<open>
  Claim C10. A wire value with no other tag whose list has no element decodes to
  \<^verbatim>\<open>None\<close>, not to the empty list; and no decoded value holds an empty list, at any
  depth.
\<close>

theorem empty_list_decodes_to_None:
  "(no_tag_populated pb \<longrightarrow> get_value_from_value_pb pb = Inr PNone)
   \<and> (get_value_from_value_pb pb' = Inr v \<longrightarrow> no_empty_list v)"
  using untagged_decodes_to_None [of pb] decoded_no_empty_list(1) [of pb'] by blast

theorem empty_list_decodes_to_None_witness:
  "no_tag_populated (Value_pb None None None None None None None None [] None)
   \<and> get_value_from_value_pb (Value_pb None None None None None None None None [] None) = Inr PNone
   \<and> get_value_from_value_pb
        (Value_pb None None None None None None None None
           [Value_pb None None None None (Some 1) None None None [] None] None) = Inr (PList [PInt 1])
   \<and> no_empty_list (PList [PInt 1])"
proof -
  have a: "no_tag_populated (Value_pb None None None None None None None None [] None)"
    by (simp add: no_tag_populated_def)
  have b: "get_value_from_value_pb
        (Value_pb None None None None None None None None
           [Value_pb None None None None (Some 1) None None None [] None] None) = Inr (PList [PInt 1])"
    by simp
  from empty_list_decodes_to_None
    [of "Value_pb None None None None None None None None [] None"
        "Value_pb None None None None None None None None
           [Value_pb None None None None (Some 1) None None None [] None] None"
        "PList [PInt 1]"] a b
  show ?thesis by blast
qed

section \<open>What the encoder writes\<close>


lemma set_protobuf_value_PEntity:
  "set_protobuf_value pb (PEntity ent) =
     (case (case key ent of None \<Rightarrow> Inr Key_pb_default | Some k \<Rightarrow> to_protobuf k) of
        Inl e \<Rightarrow> Inl e
      | Inr key_pb \<Rightarrow>
          (case set_entity_properties [] (items ent) of
             Inl e \<Rightarrow> Inl e
           | Inr props \<Rightarrow> Inr (set_entity_value pb (Entity_pb key_pb props))))"
  by simp

lemmas setters =
  set_timestamp_microseconds_value_def set_key_value_def set_boolean_value_def
  set_double_value_def set_integer_value_def set_string_value_def set_blob_value_def
  set_entity_value_def set_list_value_def

lemma set_protobuf_value_indexed_field:
  assumes "set_protobuf_value pb v = Inr r"
  shows "indexed_field r = (if v = PNone then None else indexed_field pb)"
proof (cases "v = PNone")
  case True
  with assms show ?thesis by (auto simp: Value_pb_default_def)
next
  case False
  obtain ts kv bv dv iv sv blv ev lv ix where pb: "pb = Value_pb ts kv bv dv iv sv blv ev lv ix"
    by (cases pb)
  from assms False obtain a where a: "pb_attr_value v = Inr a"
    by (auto split: sum.splits)
  with assms False show ?thesis
    by (cases a) (auto simp: pb setters split: sum.splits)
qed

lemma set_list_items_appends:
  assumes "set_list_items l_pb l = Inr r"
  shows "\<exists>new. r = l_pb @ new \<and> length new = length l
           \<and> list_all (\<lambda>x. indexed_field x = None) new"
  using assms
proof (induction l arbitrary: l_pb)
  case Nil
  then show ?case by simp
next
  case (Cons item rest)
  from Cons.prems obtain i_pb where
    i: "set_protobuf_value Value_pb_default item = Inr i_pb"
    and r: "set_list_items (l_pb @ [i_pb]) rest = Inr r"
    by (auto split: sum.splits)
  from set_protobuf_value_indexed_field [OF i] have n: "indexed_field i_pb = None"
    by (simp add: Value_pb_default_def)
  from Cons.IH [OF r] obtain new where
    "r = (l_pb @ [i_pb]) @ new" "length new = length rest"
    "list_all (\<lambda>x. indexed_field x = None) new"
    by blast
  with n have "r = l_pb @ (i_pb # new) \<and> length (i_pb # new) = length (item # rest)
      \<and> list_all (\<lambda>x. indexed_field x = None) (i_pb # new)"
    by simp
  then show ?case by blast
qed

lemma set_protobuf_value_fresh_list:
  assumes "set_protobuf_value Value_pb_default v = Inr r"
  shows "list_all (\<lambda>x. indexed_field x = None) (list_value r)"
proof (cases "v = PNone")
  case True
  with assms show ?thesis by (auto simp: Value_pb_default_def)
next
  case False
  from assms False obtain a where a: "pb_attr_value v = Inr a"
    by (auto split: sum.splits)
  show ?thesis
  proof (cases "\<exists>l. a = list_attr l")
    case True
    then obtain l where l: "a = list_attr l" by blast
    with assms False a obtain l_pb where
      s: "set_list_items [] l = Inr l_pb" and r: "r = set_list_value Value_pb_default l_pb"
      by (auto simp: Value_pb_default_def split: sum.splits)
    from set_list_items_appends [OF s] r show ?thesis
      by (auto simp: Value_pb_default_def setters)
  next
    case False
    with assms a \<open>v \<noteq> PNone\<close> show ?thesis
      by (cases a) (auto simp: Value_pb_default_def setters split: sum.splits)
  qed
qed

lemma indexed_unset: "indexed_field x = None \<Longrightarrow> indexed x"
  by (simp add: indexed_def)

lemma set_entity_properties_appends:
  assumes "set_entity_properties property_pb kvs = Inr r"
  shows "\<exists>new. r = property_pb @ new \<and> map prop_name new = map fst kvs
           \<and> list_all (\<lambda>p. indexed_field (prop_value p) = None
                \<and> list_all (\<lambda>x. indexed_field x = None) (list_value (prop_value p))) new"
  using assms
proof (induction kvs arbitrary: property_pb)
  case Nil
  then show ?case by simp
next
  case (Cons kv rest)
  obtain item_key v where kv: "kv = (item_key, v)" by (cases kv)
  from Cons.prems kv obtain p_value where
    p: "set_protobuf_value Value_pb_default v = Inr p_value"
    and r: "set_entity_properties (property_pb @ [Property_pb item_key p_value]) rest = Inr r"
    by (auto split: sum.splits)
  from set_protobuf_value_indexed_field [OF p] have "indexed_field p_value = None"
    by (simp add: Value_pb_default_def)
  moreover from set_protobuf_value_fresh_list [OF p]
  have "list_all (\<lambda>x. indexed_field x = None) (list_value p_value)" .
  moreover from Cons.IH [OF r] obtain new where
    "r = (property_pb @ [Property_pb item_key p_value]) @ new" "map prop_name new = map fst rest"
    "list_all (\<lambda>p. indexed_field (prop_value p) = None
       \<and> list_all (\<lambda>x. indexed_field x = None) (list_value (prop_value p))) new"
    by blast
  ultimately have "r = property_pb @ (Property_pb item_key p_value # new)
      \<and> map prop_name (Property_pb item_key p_value # new) = map fst (kv # rest)
      \<and> list_all (\<lambda>p. indexed_field (prop_value p) = None
           \<and> list_all (\<lambda>x. indexed_field x = None) (list_value (prop_value p)))
          (Property_pb item_key p_value # new)"
    using kv by simp
  then show ?case by blast
qed

text \<open>
  Claim C4, as amended. When \<^verbatim>\<open>_set_protobuf_value\<close> encodes an entity, there is one
  wire property for each property of the mapping, in order, and the \<^verbatim>\<open>indexed\<close> flag
  of its value and of every element of its list is left unset, and so reads true,
  whatever \<^verbatim>\<open>exclude_from_indexes\<close> holds: the function never writes the flag.
\<close>

theorem encoded_entity_indexed:
  assumes "set_protobuf_value value_pb (PEntity e) = Inr r"
  shows "\<exists>e_pb. entity_value r = Some e_pb
           \<and> map prop_name (property e_pb) = map fst (items e)
           \<and> list_all (\<lambda>p. indexed_field (prop_value p) = None \<and> indexed (prop_value p)
                \<and> list_all (\<lambda>x. indexed_field x = None \<and> indexed x)
                     (list_value (prop_value p))) (property e_pb)"
proof -
  from assms obtain key_pb props where
    p: "set_entity_properties [] (items e) = Inr props"
    and r: "r = set_entity_value value_pb (Entity_pb key_pb props)"
    unfolding set_protobuf_value_PEntity by (auto split: sum.splits)
  from r have ev: "entity_value r = Some (Entity_pb key_pb props)"
    by (cases value_pb) (simp add: setters)
  from set_entity_properties_appends [OF p] have
    names: "map prop_name props = map fst (items e)"
    and unset: "list_all (\<lambda>p. indexed_field (prop_value p) = None
       \<and> list_all (\<lambda>x. indexed_field x = None) (list_value (prop_value p))) props"
    by auto
  from unset have "list_all (\<lambda>p. indexed_field (prop_value p) = None \<and> indexed (prop_value p)
       \<and> list_all (\<lambda>x. indexed_field x = None \<and> indexed x) (list_value (prop_value p))) props"
    by (simp add: list_all_iff indexed_unset)
  with ev names show ?thesis by simp
qed

theorem encoded_entity_indexed_witness:
  "set_protobuf_value Value_pb_default (PEntity (Entity None [(''a'', PList [PInt 1, PInt 2])] {''a''})) =
     Inr (Value_pb None None None None None None None
            (Some (Entity_pb Key_pb_default
               [Property_pb ''a''
                  (Value_pb None None None None None None None None
                     [Value_pb None None None None (Some 1) None None None [] None,
                      Value_pb None None None None (Some 2) None None None [] None] None)]))
            [] None)
   \<and> (\<exists>e_pb. entity_value
         (Value_pb None None None None None None None
            (Some (Entity_pb Key_pb_default
               [Property_pb ''a''
                  (Value_pb None None None None None None None None
                     [Value_pb None None None None (Some 1) None None None [] None,
                      Value_pb None None None None (Some 2) None None None [] None] None)]))
            [] None) = Some e_pb
        \<and> list_all (\<lambda>p. indexed_field (prop_value p) = None \<and> indexed (prop_value p)
                \<and> list_all (\<lambda>x. indexed_field x = None \<and> indexed x)
                     (list_value (prop_value p))) (property e_pb))"
proof -
  have a: "set_protobuf_value Value_pb_default
      (PEntity (Entity None [(''a'', PList [PInt 1, PInt 2])] {''a''})) =
     Inr (Value_pb None None None None None None None
            (Some (Entity_pb Key_pb_default
               [Property_pb ''a''
                  (Value_pb None None None None None None None None
                     [Value_pb None None None None (Some 1) None None None [] None,
                      Value_pb None None None None (Some 2) None None None [] None] None)]))
            [] None)"
    by (simp add: Value_pb_default_def setters CheckValue_def)
  from encoded_entity_indexed [OF a] have
    "\<exists>e_pb. entity_value
         (Value_pb None None None None None None None
            (Some (Entity_pb Key_pb_default
               [Property_pb ''a''
                  (Value_pb None None None None None None None None
                     [Value_pb None None None None (Some 1) None None None [] None,
                      Value_pb None None None None (Some 2) None None None [] None] None)]))
            [] None) = Some e_pb
        \<and> list_all (\<lambda>p. indexed_field (prop_value p) = None \<and> indexed (prop_value p)
                \<and> list_all (\<lambda>x. indexed_field x = None \<and> indexed x)
                     (list_value (prop_value p))) (property e_pb)"
    by blast
  with a show ?thesis by (rule conjI)
qed

text \<open>
  Claim C4 as stated has the flag false for a name in \<^verbatim>\<open>exclude_from_indexes\<close>. The
  entity with the one property \<open>a = 1\<close> and \<open>a\<close> excluded is encoded with the flag of
  the value unset, which reads true.
\<close>

theorem excluded_property_counterexample:
  "''a'' \<in> exclude_from_indexes (Entity None [(''a'', PInt 1)] {''a''})
   \<and> set_protobuf_value Value_pb_default (PEntity (Entity None [(''a'', PInt 1)] {''a''})) =
       Inr (Value_pb None None None None None None None
              (Some (Entity_pb Key_pb_default
                 [Property_pb ''a'' (Value_pb None None None None (Some 1) None None None [] None)]))
              [] None)
   \<and> indexed (Value_pb None None None None (Some 1) None None None [] None)"
  by (simp add: Value_pb_default_def setters CheckValue_def indexed_def)

section \<open>Places in a list and in an entity\<close>


lemma loop_append:
  "entity_from_protobuf_loop (a @ b) ep ex =
     (case entity_from_protobuf_loop a ep ex of
        Inl e \<Rightarrow> Inl e
      | Inr (ep', ex') \<Rightarrow> entity_from_protobuf_loop b ep' ex')"
proof (induction a arbitrary: ep ex)
  case Nil
  show ?case by simp
next
  case (Cons p a)
  show ?case
  proof (cases "get_value_from_value_pb (prop_value p)")
    case (Inl e)
    then show ?thesis by (simp add: loop_step_fail)
  next
    case (Inr v)
    then show ?thesis by (simp add: loop_step Cons.IH)
  qed
qed

lemma list_all2_decodes:
  "list_all2 (\<lambda>p v. get_value_from_value_pb (prop_value p) = Inr v) ps vs \<Longrightarrow>
   list_all decodes ps"
  by (induction ps vs rule: list_all2_induct) (simp_all add: decodes_def)

lemma loop_Inr_excluded:
  assumes "entity_from_protobuf_loop props ep ex = Inr (ep', ex')"
  shows "\<not> list_ex inconsistent props \<and> ex' = ex @ map prop_name (filter excluded props)"
proof -
  from loop_Inr [OF assms] obtain vs where
    vs: "list_all2 (\<lambda>p v. get_value_from_value_pb (prop_value p) = Inr v) props vs"
    by blast
  then have d: "list_all decodes props" by (rule list_all2_decodes)
  have n: "\<not> list_ex inconsistent props"
  proof
    assume "list_ex inconsistent props"
    from loop_inconsistent [OF d this, of ep ex] assms show False by simp
  qed
  from loop_ok [OF vs n, of ep ex] assms have
    "ex' = ex @ map prop_name (filter excluded props)" by simp
  with n show ?thesis by (rule conjI)
qed

lemma loop_first_inconsistent:
  assumes "list_all decodes pre" and "\<not> list_ex inconsistent pre"
    and "decodes p" and "inconsistent p"
  shows "entity_from_protobuf_loop (pre @ p # post) ep ex = Inl InconsistentIndexing"
proof -
  from assms have "list_all decodes (pre @ [p])" "list_ex inconsistent (pre @ [p])"
    by simp_all
  from loop_inconsistent [OF this] have
    "entity_from_protobuf_loop (pre @ [p]) ep ex = Inl InconsistentIndexing" .
  then have "entity_from_protobuf_loop ((pre @ [p]) @ post) ep ex = Inl InconsistentIndexing"
    by (simp only: loop_append sum.case)
  then show ?thesis by simp
qed



text \<open>
  Claim C2, as amended. For every wire entity: when decoding succeeds, no list-valued
  property has elements with differing \<^verbatim>\<open>indexed\<close> flags, and the names in
  \<^verbatim>\<open>exclude_from_indexes\<close> are exactly the names of the properties whose flag (the
  common flag of the elements, for a list) is false; so decoding fails whenever a
  list-valued property has differing flags. It fails with \<open>InconsistentIndexing\<close>
  at the first such property, when the key, the values of the properties before it and
  its own value decode, whatever follows. When the key and the value of every property
  decode and no list-valued property has differing flags, decoding succeeds.
\<close>

theorem list_indexing_consistency:
  "(entity_from_protobuf (Entity_pb k props) = Inr e \<longrightarrow>
       \<not> list_ex inconsistent props
     \<and> exclude_from_indexes e = set (map prop_name (filter excluded props)))
   \<and> (list_ex inconsistent props \<longrightarrow>
        (\<exists>err. entity_from_protobuf (Entity_pb k props) = Inl err))
   \<and> (key_from_protobuf k = Inr kk \<and> list_all decodes pre \<and> \<not> list_ex inconsistent pre
        \<and> decodes p \<and> inconsistent p \<longrightarrow>
        entity_from_protobuf (Entity_pb k (pre @ p # post)) = Inl InconsistentIndexing)
   \<and> (key_from_protobuf k = Inr kk \<and> list_all decodes props
        \<and> \<not> list_ex inconsistent props \<longrightarrow>
        (\<exists>r. entity_from_protobuf (Entity_pb k props) = Inr r))"
proof -
  have success: "\<not> list_ex inconsistent props
     \<and> exclude_from_indexes e = set (map prop_name (filter excluded props))"
    if "entity_from_protobuf (Entity_pb k props) = Inr e"
  proof -
    from entity_from_protobuf_Inr [OF that] obtain kk' ep ex where
      l: "entity_from_protobuf_loop props [] [] = Inr (ep, ex)"
      and e: "e = Entity_update (Entity_init (Some kk') ex) ep"
      by blast
    from loop_Inr_excluded [OF l] e show ?thesis
      by (simp add: Entity_update_def Entity_init_def)
  qed
  have failure: "\<exists>err. entity_from_protobuf (Entity_pb k props) = Inl err"
    if i: "list_ex inconsistent props"
  proof (cases "entity_from_protobuf (Entity_pb k props)")
    case (Inl err)
    then show ?thesis by blast
  next
    case (Inr r)
    from entity_from_protobuf_Inr [OF this] obtain ep ex where
      "entity_from_protobuf_loop props [] [] = Inr (ep, ex)"
      by blast
    from loop_Inr_excluded [OF this] i show ?thesis by simp
  qed
  have first: "entity_from_protobuf (Entity_pb k (pre @ p # post)) = Inl InconsistentIndexing"
    if "key_from_protobuf k = Inr kk" "list_all decodes pre" "\<not> list_ex inconsistent pre"
      "decodes p" "inconsistent p"
    using that(1) loop_first_inconsistent [OF that(2-5), of post "[]" "[]"] by simp
  have ok: "\<exists>r. entity_from_protobuf (Entity_pb k props) = Inr r"
    if "key_from_protobuf k = Inr kk" "list_all decodes props" "\<not> list_ex inconsistent props"
  proof -
    from decodes_list_all2 [OF that(2)] obtain vs where
      "list_all2 (\<lambda>p v. get_value_from_value_pb (prop_value p) = Inr v) props vs"
      by blast
    from loop_ok [OF this that(3), of "[]" "[]"] that(1) show ?thesis by simp
  qed
  from success failure first ok show ?thesis by blast
qed

theorem list_indexing_consistency_witness:
  "entity_from_protobuf (Entity_pb
        \<lparr>partition_id = \<lparr>pb_dataset_id = Some ''s~foo'', pb_namespace = None\<rparr>,
         path_element = [\<lparr>pe_kind = ''Person'', pe_id = Some 123, pe_name = None\<rparr>]\<rparr>
        [Property_pb ''a''
           (Value_pb None None None None None None None None
              [Value_pb None None None None (Some 1) None None None [] (Some True),
               Value_pb None None None None (Some 2) None None None [] (Some False)] None)]) = Inl InconsistentIndexing
   \<and> (\<exists>e. entity_from_protobuf (Entity_pb
        \<lparr>partition_id = \<lparr>pb_dataset_id = Some ''s~foo'', pb_namespace = None\<rparr>,
         path_element = [\<lparr>pe_kind = ''Person'', pe_id = Some 123, pe_name = None\<rparr>]\<rparr>
        [Property_pb ''a''
             (Value_pb None None None None None None None None
                [Value_pb None None None None (Some 1) None None None [] (Some False),
                 Value_pb None None None None (Some 2) None None None [] (Some False)] None),
           Property_pb ''b''
             (Value_pb None None None None None None None None
                [Value_pb None None None None (Some 1) None None None [] (Some True),
                 Value_pb None None None None (Some 2) None None None [] None] None)]) = Inr e
        \<and> exclude_from_indexes e = {''a''})"
proof -
  let ?k = "\<lparr>partition_id = \<lparr>pb_dataset_id = Some ''s~foo'', pb_namespace = None\<rparr>,
         path_element = [\<lparr>pe_kind = ''Person'', pe_id = Some 123, pe_name = None\<rparr>]\<rparr>"
  let ?kk = "\<lparr>path = [(''Person'', Some (Num 123))], namespace = None,
         dataset_id = Some ''s~foo''\<rparr>"
  let ?p = "Property_pb ''a''
           (Value_pb None None None None None None None None
              [Value_pb None None None None (Some 1) None None None [] (Some True),
               Value_pb None None None None (Some 2) None None None [] (Some False)] None)"
  let ?p2 = "[Property_pb ''a''
             (Value_pb None None None None None None None None
                [Value_pb None None None None (Some 1) None None None [] (Some False),
                 Value_pb None None None None (Some 2) None None None [] (Some False)] None),
           Property_pb ''b''
             (Value_pb None None None None None None None None
                [Value_pb None None None None (Some 1) None None None [] (Some True),
                 Value_pb None None None None (Some 2) None None None [] None] None)]"
  have k: "key_from_protobuf ?k = Inr ?kk"
    by (simp add: key_from_protobuf_def Key_init_def)
  have d: "decodes ?p" and d2: "list_all decodes ?p2"
    by (simp_all add: decodes_def)
  have i: "inconsistent ?p"
    by (simp add: inconsistent_def list_valued_def same_flag_def flags_def indexed_def)
  have i2: "\<not> list_ex inconsistent ?p2"
    by (simp add: inconsistent_def list_valued_def same_flag_def flags_def indexed_def)
  have x2: "set (map prop_name (filter excluded ?p2)) = {''a''}"
    by (simp add: excluded_def list_valued_def flags_def indexed_def)
  have "key_from_protobuf ?k = Inr ?kk \<and> list_all decodes [] \<and> \<not> list_ex inconsistent []
        \<and> decodes ?p \<and> inconsistent ?p \<longrightarrow>
        entity_from_protobuf (Entity_pb ?k ([] @ ?p # [])) = Inl InconsistentIndexing"
    by (rule conjunct1 [OF conjunct2 [OF conjunct2 [OF list_indexing_consistency]]])
  with k d i have a: "entity_from_protobuf (Entity_pb ?k [?p]) = Inl InconsistentIndexing"
    by simp
  have "key_from_protobuf ?k = Inr ?kk \<and> list_all decodes ?p2
        \<and> \<not> list_ex inconsistent ?p2 \<longrightarrow>
        (\<exists>r. entity_from_protobuf (Entity_pb ?k ?p2) = Inr r)"
    by (rule conjunct2 [OF conjunct2 [OF conjunct2 [OF list_indexing_consistency]]])
  with k d2 i2 obtain r where r: "entity_from_protobuf (Entity_pb ?k ?p2) = Inr r"
    by blast
  have "entity_from_protobuf (Entity_pb ?k ?p2) = Inr r \<longrightarrow>
       \<not> list_ex inconsistent ?p2
     \<and> exclude_from_indexes r = set (map prop_name (filter excluded ?p2))"
    by (rule conjunct1 [OF list_indexing_consistency])
  with r have "exclude_from_indexes r = set (map prop_name (filter excluded ?p2))"
    by blast
  with r have b: "\<exists>e. entity_from_protobuf (Entity_pb ?k ?p2) = Inr e
      \<and> exclude_from_indexes e = {''a''}"
    unfolding x2 by blast
  from a b show ?thesis by (rule conjI)
qed

text \<open>
  Claim C2 as stated has the decoding succeed whenever the flags of a list agree, and
  fail with \<open>InconsistentIndexing\<close> only when the flags of that list differ. A list
  whose two elements both carry the flag false, the first a timestamp beyond the year
  9999, is decoded to \<open>OverflowError\<close>; a list whose one element, an entity, holds a
  list with differing flags is decoded to \<open>InconsistentIndexing\<close>.
\<close>

theorem uniform_flags_counterexample:
  "list_valued (Property_pb ''a''
           (Value_pb None None None None None None None None
              [Value_pb (Some 253402300800000000) None None None None None None None [] (Some False),
               Value_pb None None None None (Some 2) None None None [] (Some False)] None))
   \<and> same_flag (Property_pb ''a''
           (Value_pb None None None None None None None None
              [Value_pb (Some 253402300800000000) None None None None None None None [] (Some False),
               Value_pb None None None None (Some 2) None None None [] (Some False)] None))
   \<and> entity_from_protobuf (Entity_pb
        \<lparr>partition_id = \<lparr>pb_dataset_id = Some ''s~foo'', pb_namespace = None\<rparr>,
         path_element = [\<lparr>pe_kind = ''Person'', pe_id = Some 123, pe_name = None\<rparr>]\<rparr>
        [Property_pb ''a''
           (Value_pb None None None None None None None None
              [Value_pb (Some 253402300800000000) None None None None None None None [] (Some False),
               Value_pb None None None None (Some 2) None None None [] (Some False)] None)]) = Inl OverflowError
   \<and> list_valued (Property_pb ''b''
           (Value_pb None None None None None None None None
              [Value_pb None None None None None None None
                 (Some (Entity_pb \<lparr>partition_id = \<lparr>pb_dataset_id = Some ''s~foo'', pb_namespace = None\<rparr>,
         path_element = [\<lparr>pe_kind = ''Person'', pe_id = Some 123, pe_name = None\<rparr>]\<rparr>
                    [Property_pb ''c''
                       (Value_pb None None None None None None None None
                          [Value_pb None None None None (Some 1) None None None [] (Some True),
                           Value_pb None None None None (Some 2) None None None [] (Some False)]
                          None)]))
                 [] None] None))
   \<and> same_flag (Property_pb ''b''
           (Value_pb None None None None None None None None
              [Value_pb None None None None None None None
                 (Some (Entity_pb \<lparr>partition_id = \<lparr>pb_dataset_id = Some ''s~foo'', pb_namespace = None\<rparr>,
         path_element = [\<lparr>pe_kind = ''Person'', pe_id = Some 123, pe_name = None\<rparr>]\<rparr>
                    [Property_pb ''c''
                       (Value_pb None None None None None None None None
                          [Value_pb None None None None (Some 1) None None None [] (Some True),
                           Value_pb None None None None (Some 2) None None None [] (Some False)]
                          None)]))
                 [] None] None))
   \<and> entity_from_protobuf (Entity_pb
        \<lparr>partition_id = \<lparr>pb_dataset_id = Some ''s~foo'', pb_namespace = None\<rparr>,
         path_element = [\<lparr>pe_kind = ''Person'', pe_id = Some 123, pe_name = None\<rparr>]\<rparr>
        [Property_pb ''b''
           (Value_pb None None None None None None None None
              [Value_pb None None None None None None None
                 (Some (Entity_pb \<lparr>partition_id = \<lparr>pb_dataset_id = Some ''s~foo'', pb_namespace = None\<rparr>,
         path_element = [\<lparr>pe_kind = ''Person'', pe_id = Some 123, pe_name = None\<rparr>]\<rparr>
                    [Property_pb ''c''
                       (Value_pb None None None None None None None None
                          [Value_pb None None None None (Some 1) None None None [] (Some True),
                           Value_pb None None None None (Some 2) None None None [] (Some False)]
                          None)]))
                 [] None] None)]) = Inl InconsistentIndexing"
  by (simp add: list_valued_def same_flag_def flags_def indexed_def key_from_protobuf_def
      Key_init_def datetime_min_def datetime_max_def)

section \<open>The round trip\<close>






















end
